theory Spec2Isabelle
  imports Complex_Main "HOL-Library.Word" "HOL-Library.Multiset"
begin

section \<open>autofocus: frame analysis pipeline of \<^verbatim>\<open>src/main.cpp\<close>\<close>

text \<open>
  The program walks a directory of still images, derives a frame number from every
  file name, computes a sharpness score per image with OpenCV, sorts the results by
  frame number and writes them as a tab-separated table.

  Conventions of the embedding:
  \<^item> \<open>std::size_t\<close> is a 64-bit unsigned word; \<open>+\<close> and \<open>-\<close> wrap as in C++;
  \<^item> a \<open>std::filesystem::path\<close> is the byte string of its \<open>u8string()\<close>, in the
    POSIX generic format (separator \<open>/\<close>);
  \<^item> every exception is a value \<open>Inl e\<close>; the constructors of \<open>error\<close> name the
    five throw sites of the pipeline, the one of \<open>parse_args\<close> and the exception that
    \<open>std::filesystem::is_directory\<close> raises itself;
  \<^item> the file system is an explicit state that every effectful function takes and
    returns;
  \<^item> what the standard library, OpenCV and fmt compute but the repository does not
    contain (image decoding, the sample values of the three filters, the unspecified
    order of equal elements in \<open>std::sort\<close>, the text of a \<open>double\<close>) is a field of
    the record \<open>library\<close>.
\<close>

subsection \<open>Basic types\<close>

type_synonym size_t = "64 word"
type_synonym path = string

datatype error =
    InvalidFileNameError path      \<comment> \<open>"invalid filename: ..." (line 51)\<close>
  | FrameNumberParseError path     \<comment> \<open>"unable to parse frame number from file ..." (line 65)\<close>
  | ImageDecodeError path          \<comment> \<open>"error while opening image ..." (line 86)\<close>
  | FilesystemError path           \<comment> \<open>\<open>std::filesystem::filesystem_error\<close> of \<open>is_directory\<close> (line 141)\<close>
  | InvalidDirectoryError path     \<comment> \<open>"invalid data directory ..." (line 143)\<close>
  | OutputWriteError path          \<comment> \<open>"unable to open result file ..." (line 178)\<close>
  | InvalidArgumentsError          \<comment> \<open>"invalid arguments. Usage: ..." (line 202)\<close>

record frame_info =
  number :: size_t
  sharpness :: real

subsection \<open>\<open>std::filesystem::path::extension\<close>\<close>

text \<open>
  The standard's decomposition: \<open>filename()\<close> is what follows the last separator;
  the extension starts at the rightmost period of the file name and includes it, and
  is empty when the file name is \<open>.\<close> or \<open>..\<close>, has no period, or has its only
  period in front (\<open>.hidden\<close>).
\<close>

definition path_filename :: "path \<Rightarrow> string" where
  "path_filename p = rev (takeWhile (\<lambda>c. c \<noteq> CHR ''/'') (rev p))"

definition path_extension :: "path \<Rightarrow> string" where
  "path_extension p =
     (let f = path_filename p;
          after_dot = rev (takeWhile (\<lambda>c. c \<noteq> CHR ''.'') (rev f))
      in if f = ''.'' \<or> f = ''..'' then []
         else if CHR ''.'' \<notin> set f then []
         else if Suc (length after_dot) = length f then []
         else CHR ''.'' # after_dot)"

subsection \<open>\<open>std::from_chars\<close> for an unsigned integer, base 10\<close>

text \<open>
  \<open>from_chars\<close> consumes the longest prefix of decimal digits (no sign, no white
  space). With no digit at the front it reports \<open>invalid_argument\<close>; when the digits
  denote a value that does not fit the result type it reports
  \<open>result_out_of_range\<close>; in both cases the output variable keeps its value. The
  returned pointer is given as the number of characters consumed.
\<close>

datatype errc = errc_ok | invalid_argument | result_out_of_range

definition is_digit :: "char \<Rightarrow> bool" where
  "is_digit c = (48 \<le> (of_char c :: nat) \<and> (of_char c :: nat) \<le> 57)"

definition digit_val :: "char \<Rightarrow> nat" where
  "digit_val c = of_char c - 48"

definition digits_value :: "string \<Rightarrow> nat" where
  "digits_value ds = fold (\<lambda>c acc. acc * 10 + digit_val c) ds 0"

definition SIZE_MAX :: nat where
  "SIZE_MAX = 2 ^ 64 - 1"

definition from_chars :: "string \<Rightarrow> size_t \<Rightarrow> (nat \<times> errc) \<times> size_t" where
  "from_chars chars v =
     (let ds = takeWhile is_digit chars
      in if ds = [] then ((0, invalid_argument), v)
         else if SIZE_MAX < digits_value ds then ((length ds, result_out_of_range), v)
         else ((length ds, errc_ok), of_nat (digits_value ds)))"

subsection \<open>\<open>extract_frame_number\<close> (lines 43-74)\<close>

text \<open>
  The lengths are \<open>size_t\<close> values, the comparison and the two subtractions are
  unsigned. \<open>from_chars\<close> is given the characters from \<open>start_index\<close> to the end of
  the string, and only its error code is looked at. (A string of the program has
  fewer than \<open>2\<^sup>6\<^sup>4\<close> bytes, so that \<open>of_nat\<close> of a length is that length.)

  The first throw (lines 51-54) is written with two arguments for
  \<open>std::runtime_error\<close>, the format string and the path, where the other throws call
  \<open>fmt::format\<close>; it is modelled as the exception it is meant to raise.
\<close>

definition extract_frame_number :: "path \<Rightarrow> size_t \<Rightarrow> error + size_t" where
  "extract_frame_number filepath frame_number_digits =
     (let extensionSize = (of_nat (length (path_extension filepath)) :: size_t);
          str = filepath
      in if (of_nat (length str) :: size_t) \<le> extensionSize + frame_number_digits
         then Inl (InvalidFileNameError str)
         else
           let start_index = of_nat (length str) - extensionSize - frame_number_digits;
               ((ptr, ec), frame_number) = from_chars (drop (unat start_index) str) 0
           in if ec \<noteq> errc_ok then Inl (FrameNumberParseError str)
              else Inr frame_number)"

text \<open>The default argument \<open>frame_number_digits = 5\<close>.\<close>

definition default_frame_number_digits :: size_t where
  "default_frame_number_digits = 5"

subsection \<open>Decimal numerals\<close>

text \<open>
  The decimal numeral of a natural number: what \<open>fmt::format("{}", n)\<close> prints for
  an unsigned integer.
\<close>

definition digit_char :: "nat \<Rightarrow> char" where
  "digit_char d = ''0123456789'' ! d"

fun decimal :: "nat \<Rightarrow> string" where
  "decimal n = (if n < 10 then [digit_char n] else decimal (n div 10) @ [digit_char (n mod 10)])"

declare decimal.simps [simp del]

subsection \<open>Notions the statements about \<open>extract_frame_number\<close> use\<close>

text \<open>
  The frame-number field of a path for a digit width \<open>W\<close>: the \<open>W\<close> characters that
  immediately precede the extension.
\<close>

definition frame_number_field :: "path \<Rightarrow> nat \<Rightarrow> string" where
  "frame_number_field filepath W =
     take W (drop (length filepath - length (path_extension filepath) - W) filepath)"

text \<open>The same padded with zeros on the left to a width (what \<open>%05d\<close> prints for width 5).\<close>

definition zero_padded :: "nat \<Rightarrow> nat \<Rightarrow> string" where
  "zero_padded W n = replicate (W - length (decimal n)) (CHR ''0'') @ decimal n"

subsection \<open>Images and the OpenCV operations\<close>

text \<open>
  A \<open>cv::Mat\<close> is its size and its samples by row and column. \<open>cv::imread\<close> with
  the default flag yields 8-bit BGR pixels, \<open>COLOR_BGR2GRAY\<close> 8-bit samples and
  \<open>cv::Laplacian\<close> with depth \<open>CV_16S\<close> signed 16-bit samples. OpenCV documents the
  destination of \<open>GaussianBlur\<close>, \<open>cvtColor\<close> and \<open>Laplacian\<close> as having the size of
  the source; the model fixes that and takes the sample values from \<open>library\<close>.
\<close>

type_synonym u8 = "8 word"
type_synonym s16 = "16 word"
type_synonym bgr = "u8 \<times> u8 \<times> u8"

record 'a mat =
  rows :: nat
  cols :: nat
  sample :: "nat \<Rightarrow> nat \<Rightarrow> 'a"

definition empty_mat :: "'a mat" where
  "empty_mat = \<lparr>rows = 0, cols = 0, sample = (\<lambda>r c. undefined)\<rparr>"

text \<open>The samples in row-major order, as a scan over the whole array visits them.\<close>

definition elements :: "'a mat \<Rightarrow> 'a list" where
  "elements m = concat (map (\<lambda>r. map (sample m r) [0..<cols m]) [0..<rows m])"

record library =
  imdecode :: "string \<Rightarrow> bgr mat"
    \<comment> \<open>the decoder behind \<open>cv::imread\<close>: file bytes to pixels, an empty array on failure\<close>
  GaussianBlur_3x3 :: "bgr mat \<Rightarrow> nat \<Rightarrow> nat \<Rightarrow> bgr"
    \<comment> \<open>\<open>GaussianBlur(src, dst, Size{3, 3}, 0, 0, BORDER_DEFAULT)\<close>: the sample at a row and column\<close>
  BGR2GRAY :: "bgr \<Rightarrow> u8"
    \<comment> \<open>\<open>cvtColor(src, dst, COLOR_BGR2GRAY)\<close>: the gray value of one pixel\<close>
  Laplacian_3 :: "u8 mat \<Rightarrow> nat \<Rightarrow> nat \<Rightarrow> s16"
    \<comment> \<open>\<open>Laplacian(src, dst, CV_16S, 3, 1, 0, BORDER_DEFAULT)\<close>: the sample at a row and column\<close>
  std_sort :: "(frame_info \<Rightarrow> frame_info \<Rightarrow> bool) \<Rightarrow> frame_info list \<Rightarrow> frame_info list"
    \<comment> \<open>\<open>std::sort\<close> with a comparator\<close>
  format_double :: "real \<Rightarrow> string"
    \<comment> \<open>what \<open>fmt::format("{}", x)\<close> prints for a \<open>double\<close>\<close>

definition cv_GaussianBlur :: "library \<Rightarrow> bgr mat \<Rightarrow> bgr mat" where
  "cv_GaussianBlur lib src = \<lparr>rows = rows src, cols = cols src, sample = GaussianBlur_3x3 lib src\<rparr>"

definition cv_cvtColor :: "library \<Rightarrow> bgr mat \<Rightarrow> u8 mat" where
  "cv_cvtColor lib src =
     \<lparr>rows = rows src, cols = cols src, sample = (\<lambda>r c. BGR2GRAY lib (sample src r c))\<rparr>"

definition cv_Laplacian :: "library \<Rightarrow> u8 mat \<Rightarrow> s16 mat" where
  "cv_Laplacian lib src = \<lparr>rows = rows src, cols = cols src, sample = Laplacian_3 lib src\<rparr>"

text \<open>
  \<open>cv::minMaxLoc\<close> scans a single-channel array for its least and greatest sample and
  reports them as \<open>double\<close>; every signed 16-bit value is a \<open>double\<close> exactly. The two
  locations it also reports are not used by the caller and are left out. On an array
  without samples it reports 0 for both.
\<close>

definition minMax_step :: "s16 \<Rightarrow> int \<times> int \<Rightarrow> int \<times> int" where
  "minMax_step x acc =
     (case acc of (mn, mx) \<Rightarrow>
        (if sint x < mn then sint x else mn, if mx < sint x then sint x else mx))"

definition cv_minMaxLoc :: "s16 mat \<Rightarrow> real \<times> real" where
  "cv_minMaxLoc src =
     (case elements src of
        [] \<Rightarrow> (0, 0)
      | v # vs \<Rightarrow>
          (case fold minMax_step vs (sint v, sint v) of
             (mn, mx) \<Rightarrow> (real_of_int mn, real_of_int mx)))"

subsection \<open>The file system\<close>

text \<open>
  \<open>directories\<close> gives, for every existing directory, the paths of its entries in
  the order \<open>directory_iterator\<close> yields them; \<open>files\<close> the bytes of the readable
  files; \<open>ofstream_opens\<close> says whether \<open>std::ofstream\<close> can open a path for
  writing. \<open>imread_log\<close> records the calls of \<open>cv::imread\<close> in order, so that
  statements about which files were decoded can be made. \<open>status_fails\<close> says, of
  a path that is no existing directory, whether the status query behind
  \<open>is_directory\<close> fails with an error other than "not found" (a name too long, a
  loop of symbolic links, a directory on the way that may not be searched).
\<close>

record world =
  directories :: "path \<rightharpoonup> path list"
  status_fails :: "path \<Rightarrow> bool"
  files :: "path \<rightharpoonup> string"
  ofstream_opens :: "path \<Rightarrow> bool"
  imread_log :: "path list"

definition cv_imread :: "library \<Rightarrow> path \<Rightarrow> world \<Rightarrow> bgr mat \<times> world" where
  "cv_imread lib filename w =
     ((case files w filename of None \<Rightarrow> empty_mat | Some bytes \<Rightarrow> imdecode lib bytes),
      w\<lparr>imread_log := imread_log w @ [filename]\<rparr>)"

subsection \<open>\<open>read_image\<close> (lines 79-94) and \<open>calculate_sharpness\<close> (lines 99-123)\<close>

definition read_image :: "library \<Rightarrow> path \<Rightarrow> world \<Rightarrow> (error + bgr mat) \<times> world" where
  "read_image lib filepath w =
     (case cv_imread lib filepath w of (img, w') \<Rightarrow>
        if cols img = 0 \<or> rows img = 0 then (Inl (ImageDecodeError filepath), w')
        else (Inr img, w'))"

definition calculate_sharpness :: "library \<Rightarrow> path \<Rightarrow> world \<Rightarrow> (error + real) \<times> world" where
  "calculate_sharpness lib filepath w =
     (case read_image lib filepath w of
        (Inl e, w') \<Rightarrow> (Inl e, w')
      | (Inr img, w') \<Rightarrow>
          (let blurred = cv_GaussianBlur lib img;
               gray = cv_cvtColor lib blurred;
               filtered_image = cv_Laplacian lib gray
           in case cv_minMaxLoc filtered_image of
                (min_val, max_val) \<Rightarrow> (Inr max_val, w')))"

subsection \<open>\<open>analyse_frame\<close> (lines 128-134) and \<open>analyse_frames\<close> (lines 139-166)\<close>

text \<open>
  The two initialisers of the braced list are evaluated in the order written: the
  frame number first, the sharpness second.
\<close>

definition analyse_frame :: "library \<Rightarrow> path \<Rightarrow> world \<Rightarrow> (error + frame_info) \<times> world" where
  "analyse_frame lib filepath w =
     (case extract_frame_number filepath default_frame_number_digits of
        Inl e \<Rightarrow> (Inl e, w)
      | Inr n \<Rightarrow>
          (case calculate_sharpness lib filepath w of
             (Inl e, w') \<Rightarrow> (Inl e, w')
           | (Inr s, w') \<Rightarrow> (Inr \<lparr>number = n, sharpness = s\<rparr>, w')))"

text \<open>The loop over the directory entries; the first exception leaves it.\<close>

fun collect_frames ::
  "library \<Rightarrow> path list \<Rightarrow> frame_info list \<Rightarrow> world \<Rightarrow> (error + frame_info list) \<times> world" where
  "collect_frames lib [] result w = (Inr result, w)"
| "collect_frames lib (entry # entries) result w =
     (case analyse_frame lib entry w of
        (Inl e, w') \<Rightarrow> (Inl e, w')
      | (Inr frame, w') \<Rightarrow> collect_frames lib entries (result @ [frame]) w')"

text \<open>The comparator given to \<open>std::sort\<close>.\<close>

definition frame_less :: "frame_info \<Rightarrow> frame_info \<Rightarrow> bool" where
  "frame_less lhs_frame rhs_frame = (number lhs_frame < number rhs_frame)"

text \<open>
  \<open>std::filesystem::is_directory(p)\<close>, the overload that throws: \<open>true\<close> for an
  existing directory, \<open>false\<close> for a path that does not exist or is something
  else, and a \<open>filesystem_error\<close> when the status of the path cannot be had.
\<close>

definition is_directory :: "world \<Rightarrow> path \<Rightarrow> error + bool" where
  "is_directory w p =
     (case directories w p of
        Some entries \<Rightarrow> Inr True
      | None \<Rightarrow> if status_fails w p then Inl (FilesystemError p) else Inr False)"

definition directory_iterator :: "world \<Rightarrow> path \<Rightarrow> path list" where
  "directory_iterator w p = (case directories w p of Some entries \<Rightarrow> entries | None \<Rightarrow> [])"

definition analyse_frames ::
  "library \<Rightarrow> path \<Rightarrow> world \<Rightarrow> (error + frame_info list) \<times> world" where
  "analyse_frames lib directory w =
     (case is_directory w directory of
        Inl e \<Rightarrow> (Inl e, w)
      | Inr is_dir \<Rightarrow>
          if \<not> is_dir then (Inl (InvalidDirectoryError directory), w)
          else
            (case collect_frames lib (directory_iterator w directory) [] w of
               (Inl e, w') \<Rightarrow> (Inl e, w')
             | (Inr result, w') \<Rightarrow> (Inr (std_sort lib frame_less result), w')))"

subsection \<open>\<open>write_results\<close> (lines 171-190)\<close>

definition format_line :: "library \<Rightarrow> frame_info \<Rightarrow> string" where
  "format_line lib frame =
     decimal (unat (number frame)) @ [CHR 0x09] @ format_double lib (sharpness frame) @ [CHR 0x0A]"

text \<open>
  Opening the stream truncates the file; every iteration appends one formatted
  record to what the stream holds.
\<close>

definition write_results ::
  "library \<Rightarrow> path \<Rightarrow> frame_info list \<Rightarrow> world \<Rightarrow> (error + unit) \<times> world" where
  "write_results lib filepath frames w =
     (if \<not> ofstream_opens w filepath then (Inl (OutputWriteError filepath), w)
      else
        let ofs = fold (\<lambda>frame ofs. ofs @ format_line lib frame) frames []
        in (Inr (), w\<lparr>files := (files w)(filepath \<mapsto> ofs)\<rparr>))"

subsection \<open>\<open>parse_args\<close> (lines 198-211) and \<open>main\<close> (lines 213-227)\<close>

record parsed_args =
  frames_directory :: path
  result_file :: path

definition parse_args :: "string list \<Rightarrow> error + parsed_args" where
  "parse_args argv =
     (if length argv \<noteq> 3 then Inl InvalidArgumentsError
      else Inr \<lparr>frames_directory = argv ! 1, result_file = argv ! 2\<rparr>)"

definition EXIT_SUCCESS :: int where "EXIT_SUCCESS = 0"
definition EXIT_FAILURE :: int where "EXIT_FAILURE = 1"

text \<open>
  The argument \<open>analyse_frames(frames_directory)\<close> is evaluated before
  \<open>write_results\<close> is entered. The message printed in the handler is not modelled.
\<close>

definition main :: "library \<Rightarrow> string list \<Rightarrow> world \<Rightarrow> int \<times> world" where
  "main lib argv w =
     (case parse_args argv of
        Inl e \<Rightarrow> (EXIT_FAILURE, w)
      | Inr args \<Rightarrow>
          (case analyse_frames lib (frames_directory args) w of
             (Inl e, w1) \<Rightarrow> (EXIT_FAILURE, w1)
           | (Inr frames, w1) \<Rightarrow>
               (case write_results lib (result_file args) frames w1 of
                  (Inl e, w2) \<Rightarrow> (EXIT_FAILURE, w2)
                | (Inr u, w2) \<Rightarrow> (EXIT_SUCCESS, w2))))"

subsection \<open>Notions the statements about the pipeline use\<close>

text \<open>
  The signed Laplacian response of a decoded image: the composition of the three
  filters in the order blur, gray, Laplacian.
\<close>

definition laplacian_response :: "library \<Rightarrow> bgr mat \<Rightarrow> s16 mat" where
  "laplacian_response lib img = cv_Laplacian lib (cv_cvtColor lib (cv_GaussianBlur lib img))"

text \<open>
  What the standard guarantees of \<open>std::sort\<close> with the comparator of
  \<open>analyse_frames\<close>: the result is a permutation of the input in which no element is
  followed by one that compares less. The order of elements that compare equal is
  left open.
\<close>

definition std_sort_contract :: "library \<Rightarrow> bool" where
  "std_sort_contract lib =
     (\<forall>xs. mset (std_sort lib frame_less xs) = mset xs \<and>
           sorted_wrt (\<lambda>a b. \<not> frame_less b a) (std_sort lib frame_less xs))"

text \<open>The text of a \<open>double\<close> is on one line.\<close>

definition format_double_one_line :: "library \<Rightarrow> bool" where
  "format_double_one_line lib = (\<forall>x. CHR 0x0A \<notin> set (format_double lib x))"

text \<open>
  The lines of a text (each ended by a line feed; a last line without one counts
  too), the text of one record without its line feed, and the first tab-separated
  field of every line.
\<close>

primrec split_lines :: "string \<Rightarrow> string \<Rightarrow> string list" where
  "split_lines cur [] = (if cur = [] then [] else [cur])"
| "split_lines cur (c # cs) =
     (if c = CHR 0x0A then cur # split_lines [] cs else split_lines (cur @ [c]) cs)"

definition line_body :: "library \<Rightarrow> frame_info \<Rightarrow> string" where
  "line_body lib frame =
     decimal (unat (number frame)) @ [CHR 0x09] @ format_double lib (sharpness frame)"

definition first_fields :: "string \<Rightarrow> string list" where
  "first_fields content = map (takeWhile (\<lambda>c. c \<noteq> CHR 0x09)) (split_lines [] content)"

subsection \<open>A small instance of the library and of the file system\<close>

text \<open>
  For evaluating the model on examples: an image file is one row of gray samples,
  one byte each; the blur is the identity, the gray value is the green channel, the
  "Laplacian" subtracts 100 from every sample; sorting is insertion sort with the
  given comparator; a \<open>double\<close> is printed as the decimal numeral of its integer part.
\<close>

fun insert_by :: "('a \<Rightarrow> 'a \<Rightarrow> bool) \<Rightarrow> 'a \<Rightarrow> 'a list \<Rightarrow> 'a list" where
  "insert_by cmp x [] = [x]"
| "insert_by cmp x (y # ys) = (if cmp x y then x # y # ys else y # insert_by cmp x ys)"

definition insertion_sort :: "('a \<Rightarrow> 'a \<Rightarrow> bool) \<Rightarrow> 'a list \<Rightarrow> 'a list" where
  "insertion_sort cmp xs = foldr (insert_by cmp) xs []"

definition example_library :: library where
  "example_library =
     \<lparr>imdecode = (\<lambda>bytes.
        \<lparr>rows = 1, cols = length bytes,
         sample = (\<lambda>r c. (of_nat (of_char (bytes ! c)), of_nat (of_char (bytes ! c)),
                          of_nat (of_char (bytes ! c))))\<rparr>),
      GaussianBlur_3x3 = sample,
      BGR2GRAY = (\<lambda>p. fst (snd p)),
      Laplacian_3 = (\<lambda>src r c. ucast (sample src r c) - 100),
      std_sort = insertion_sort,
      format_double = (\<lambda>x. (if x < 0 then ''-'' else []) @ decimal (nat \<lfloor>\<bar>x\<bar>\<rfloor>))\<rparr>"

definition example_world :: world where
  "example_world =
     \<lparr>directories = [''frames'' \<mapsto> [''frames/f00002.png'', ''frames/f00001.png''],
                     ''empty'' \<mapsto> []],
      status_fails = (\<lambda>p. False),
      files = [''frames/f00001.png'' \<mapsto> ''Aez'', ''frames/f00002.png'' \<mapsto> ''mmm''],
      ofstream_opens = (\<lambda>p. True),
      imread_log = []\<rparr>"

text \<open>The same with a directory that holds a well-named image and a file with a short name.\<close>

definition example_world_bad_name :: world where
  "example_world_bad_name =
     example_world\<lparr>directories := [''d'' \<mapsto> [''frames/f00001.png'', ''d/x.png'']]\<rparr>"

text \<open>The same where the status of \<open>locked/frames\<close> cannot be had.\<close>

definition example_world_status_error :: world where
  "example_world_status_error = example_world\<lparr>status_fails := (\<lambda>p. p = ''locked/frames'')\<rparr>"

section \<open>Properties\<close>

subsection \<open>Paths and extensions\<close>

lemmas eval_defs = extract_frame_number_def path_extension_def path_filename_def from_chars_def
  is_digit_def digits_value_def digit_val_def SIZE_MAX_def frame_number_field_def

lemma path_filename_suffix: "\<exists>pre. p = pre @ path_filename p"
  unfolding path_filename_def
  by (metis rev_append rev_rev_ident takeWhile_dropWhile_id)

lemma path_extension_filename_suffix: "\<exists>pre. path_filename p = pre @ path_extension p"
proof -
  let ?f = "path_filename p"
  let ?t = "rev (takeWhile (\<lambda>c. c \<noteq> CHR ''.'') (rev ?f))"
  have split: "?f = rev (dropWhile (\<lambda>c. c \<noteq> CHR ''.'') (rev ?f)) @ ?t"
    by (metis rev_append rev_rev_ident takeWhile_dropWhile_id)
  show ?thesis
  proof (cases "path_extension p = []")
    case True
    then show ?thesis by simp
  next
    case False
    then have ext: "path_extension p = CHR ''.'' # ?t" and dot: "CHR ''.'' \<in> set ?f"
      by (auto simp: path_extension_def Let_def split: if_splits)
    from dot have "dropWhile (\<lambda>c. c \<noteq> CHR ''.'') (rev ?f) \<noteq> []"
      by (simp add: dropWhile_eq_Nil_conv) 
    then obtain d ds where dw: "dropWhile (\<lambda>c. c \<noteq> CHR ''.'') (rev ?f) = d # ds"
      by (cases "dropWhile (\<lambda>c. c \<noteq> CHR ''.'') (rev ?f)") auto
    then have "d = CHR ''.''"
      using hd_dropWhile[of "\<lambda>c. c \<noteq> CHR ''.''" "rev ?f"] by auto
    with split dw have "?f = rev ds @ (CHR ''.'' # ?t)" by simp
    with ext show ?thesis by metis
  qed
qed

lemma path_extension_suffix: "\<exists>pre. p = pre @ path_extension p"
  using path_filename_suffix[of p] path_extension_filename_suffix[of p]
  by (metis append.assoc)

lemma path_extension_drop:
  "drop (length p - length (path_extension p)) p = path_extension p"
proof -
  obtain pre where "p = pre @ path_extension p" using path_extension_suffix by blast
  moreover have "\<And>e. drop (length (pre @ e) - length e) (pre @ e) = e" by simp
  ultimately show ?thesis by metis
qed

lemma path_extension_length_le: "length (path_extension p) \<le> length p"
  using path_extension_suffix[of p] by (metis le_add2 length_append)

lemma path_extension_no_digit_front:
  "takeWhile is_digit (path_extension p) = []"
  by (auto simp: path_extension_def Let_def is_digit_def)


subsection \<open>The arithmetic of \<open>extract_frame_number\<close> in \<open>size_t\<close>\<close>

lemma size_t_le_iff:
  assumes "len < 2 ^ 64" and "ext + unat (W :: size_t) < 2 ^ 64"
  shows "((of_nat len :: size_t) \<le> of_nat ext + W) \<longleftrightarrow> len \<le> ext + unat W"
proof -
  have "unat (of_nat ext + W :: size_t) = ext + unat W"
    using assms(2) by (simp add: unat_word_ariths unat_of_nat)
  moreover have "unat (of_nat len :: size_t) = len"
    using assms(1) by (simp add: unat_of_nat)
  ultimately show ?thesis by (simp add: word_le_nat_alt)
qed

lemma size_t_start_index:
  assumes "len < 2 ^ 64" and "ext + unat (W :: size_t) < len"
  shows "unat (of_nat len - of_nat ext - W :: size_t) = len - ext - unat W"
proof -
  have "(of_nat (len - ext - unat W) :: size_t) = of_nat (len - ext) - of_nat (unat W)"
    using assms(2) by (intro of_nat_diff) simp
  also have "(of_nat (len - ext) :: size_t) = of_nat len - of_nat ext"
    using assms(2) by (intro of_nat_diff) simp
  finally have "(of_nat len - of_nat ext - W :: size_t) = of_nat (len - ext - unat W)"
    by simp
  moreover have "len - ext - unat W < 2 ^ 64" using assms(1) by simp
  ultimately show ?thesis by (simp add: unat_of_nat)
qed


lemma takeWhile_digits_field:
  assumes "takeWhile is_digit e = []"
  shows "takeWhile is_digit (fld @ e) = takeWhile is_digit fld"
proof (cases "\<forall>c\<in>set fld. is_digit c")
  case True
  then have b: "takeWhile is_digit fld = fld" by (simp add: takeWhile_eq_all_conv)
  have a: "takeWhile is_digit (fld @ e) = fld @ takeWhile is_digit e"
    using True by (simp add: takeWhile_append2)
  show ?thesis unfolding a b assms by simp
next
  case False
  then show ?thesis by (auto simp: takeWhile_append1)
qed

lemma drop_start_field:
  assumes "length (path_extension p) + W < length p"
  shows "drop (length p - length (path_extension p) - W) p
           = frame_number_field p W @ path_extension p"
proof -
  let ?e = "path_extension p"
  obtain pre where p: "p = pre @ ?e" using path_extension_suffix by blast
  then have lp: "length p = length pre + length ?e" by (metis length_append)
  with assms have W: "W < length pre" by simp
  have idx: "length p - length ?e - W = length pre - W" using lp by simp
  have d: "drop (length pre - W) (pre @ ?e) = drop (length pre - W) pre @ ?e"
    by simp
  have "take W (drop (length pre - W) (pre @ ?e)) = drop (length pre - W) pre"
    using W by (simp add: d)
  then have "frame_number_field p W = drop (length pre - W) pre"
    unfolding frame_number_field_def idx using p by metis
  with d p idx show ?thesis by metis
qed

lemma extract_frame_number_passed:
  assumes len: "length filepath < 2 ^ 64"
    and pass: "length (path_extension filepath) + unat W < length filepath"
  shows "extract_frame_number filepath W =
           (case from_chars (frame_number_field filepath (unat W) @ path_extension filepath) 0 of
              ((ptr, ec), frame_number) \<Rightarrow>
                if ec \<noteq> errc_ok then Inl (FrameNumberParseError filepath)
                else Inr frame_number)"
proof -
  let ?e = "length (path_extension filepath)"
  have nov: "?e + unat W < 2 ^ 64" using len pass by simp
  have chk: "\<not> ((of_nat (length filepath) :: size_t) \<le> of_nat ?e + W)"
    using size_t_le_iff[OF len nov] pass by simp
  have st: "unat (of_nat (length filepath) - of_nat ?e - W :: size_t) = length filepath - (?e + unat W)"
    using size_t_start_index[OF len pass] by simp
  have dr: "drop (length filepath - (?e + unat W)) filepath
              = frame_number_field filepath (unat W) @ path_extension filepath"
    using drop_start_field[OF pass] by simp
  show ?thesis
    using chk by (simp add: extract_frame_number_def st dr Let_def split: prod.splits)
qed

subsection \<open>Decimal numerals and their values\<close>

lemma of_char_digit_char:
  assumes "d < 10"
  shows "(of_char (digit_char d) :: nat) = 48 + d"
proof -
  from assms have "d \<in> {0, 1, 2, 3, 4, 5, 6, 7, 8, 9}" by auto
  then show ?thesis by (auto simp: digit_char_def)
qed

lemma is_digit_digit_char: "d < 10 \<Longrightarrow> is_digit (digit_char d)"
  by (simp add: is_digit_def of_char_digit_char)

lemma digit_val_digit_char: "d < 10 \<Longrightarrow> digit_val (digit_char d) = d"
  by (simp add: digit_val_def of_char_digit_char)

lemma decimal_not_Nil: "decimal n \<noteq> []"
  by (subst decimal.simps) simp

lemma decimal_digits: "c \<in> set (decimal n) \<Longrightarrow> is_digit c"
proof (induction n rule: decimal.induct)
  case (1 n)
  show ?case
  proof (cases "n < 10")
    case True
    with "1.prems" show ?thesis
      by (subst (asm) decimal.simps) (simp add: is_digit_digit_char)
  next
    case False
    with "1.prems" have "c \<in> set (decimal (n div 10)) \<or> c = digit_char (n mod 10)"
      by (subst (asm) decimal.simps) auto
    with False "1.IH" show ?thesis
      by (auto simp: is_digit_digit_char)
  qed
qed

lemma digits_value_snoc: "digits_value (ds @ [c]) = digits_value ds * 10 + digit_val c"
  by (simp add: digits_value_def)

lemma digits_value_decimal: "digits_value (decimal n) = n"
proof (induction n rule: decimal.induct)
  case (1 n)
  show ?case
  proof (cases "n < 10")
    case True
    then show ?thesis
      by (subst decimal.simps) (simp add: digits_value_def digit_val_digit_char)
  next
    case False
    then have "digits_value (decimal n) = digits_value (decimal (n div 10)) * 10 + digit_val (digit_char (n mod 10))"
      by (subst decimal.simps) (simp add: digits_value_snoc)
    with False "1.IH" show ?thesis
      by (simp add: digit_val_digit_char)
  qed
qed

lemma fold_digits_zeros:
  "fold (\<lambda>c acc. acc * 10 + digit_val c) (replicate k (CHR ''0'')) 0 = 0"
  by (induction k) (simp_all add: digit_val_def)

lemma digits_value_zero_padded: "digits_value (zero_padded W n) = n"
proof -
  have "digits_value (zero_padded W n) =
          fold (\<lambda>c acc. acc * 10 + digit_val c) (decimal n)
            (fold (\<lambda>c acc. acc * 10 + digit_val c) (replicate (W - length (decimal n)) (CHR ''0'')) 0)"
    unfolding zero_padded_def digits_value_def fold_append by simp
  also have "\<dots> = digits_value (decimal n)"
    unfolding fold_digits_zeros digits_value_def ..
  finally show ?thesis by (simp add: digits_value_decimal)
qed

lemma zero_padded_digits: "c \<in> set (zero_padded W n) \<Longrightarrow> is_digit c"
proof -
  have "is_digit (CHR ''0'')" by (simp add: is_digit_def)
  then show "c \<in> set (zero_padded W n) \<Longrightarrow> is_digit c"
    by (auto simp: zero_padded_def decimal_digits)
qed

lemma takeWhile_zero_padded: "takeWhile is_digit (zero_padded W n) = zero_padded W n"
  by (simp add: zero_padded_digits)

lemma zero_padded_not_Nil: "zero_padded W n \<noteq> []"
  by (simp add: zero_padded_def decimal_not_Nil)

subsection \<open>The frame-number parser\<close>

text \<open>
  What the length check measures is the whole path string. When the sum of the
  extension length and the width does not wrap, a path string no longer than that
  sum takes the branch of the first throw.
\<close>

lemma extract_frame_number_short_path:
  assumes "length (path_extension filepath) + unat W < 2 ^ 64"
    and "length filepath \<le> length (path_extension filepath) + unat W"
  shows "extract_frame_number filepath W = Inl (InvalidFileNameError filepath)"
proof -
  have "length filepath < 2 ^ 64" using assms by simp
  then have "(of_nat (length filepath) :: size_t) \<le> of_nat (length (path_extension filepath)) + W"
    using size_t_le_iff[of "length filepath" "length (path_extension filepath)" W] assms by simp
  then show ?thesis by (simp add: extract_frame_number_def)
qed

lemma extract_frame_number_x_png:
  "extract_frame_number ''x.png'' default_frame_number_digits = Inl (InvalidFileNameError ''x.png'')"
  by (simp add: eval_defs default_frame_number_digits_def)

text \<open>
  C1. The code does not do what the claim says for a file name that is too short:
  the extension is that of the file name, but the length compared is that of the
  whole path, directory included. \<open>analyse_frame\<close> hands over the path of the
  directory entry; for the file \<open>x.png\<close> of the directory \<open>f12345\<close> the file name
  has 5 characters, no more than the extension length 4 plus the width 5, yet the
  path has 12, the check passes, the field starts inside the directory's name and
  the result is the frame number 345 instead of \<open>InvalidFileNameError\<close>.
\<close>

theorem extract_frame_number_short_name_in_directory:
  "path_filename ''f12345/x.png'' = ''x.png'' \<and>
   path_extension ''f12345/x.png'' = ''.png'' \<and>
   length (path_filename ''f12345/x.png'')
     \<le> length (path_extension ''f12345/x.png'') + unat default_frame_number_digits \<and>
   extract_frame_number ''f12345/x.png'' default_frame_number_digits = Inr 345"
  by (simp add: eval_defs default_frame_number_digits_def)

text \<open>
  C2 (as amended). For every path that passes the length check (its length below
  \<open>2\<^sup>6\<^sup>4\<close> and above the extension length plus \<open>W\<close>), \<open>extract_frame_number\<close>
  looks only at the digits at the front of the \<open>W\<close>-character field: it fails with
  \<open>FrameNumberParseError\<close> exactly when the field does not start with a decimal
  digit or these digits denote a value above \<open>SIZE_MAX\<close>, and otherwise succeeds
  with the value of these digits, whatever follows them in the field.
\<close>

theorem extract_frame_number_leading_digits:
  assumes "length filepath < 2 ^ 64"
    and "length (path_extension filepath) + unat W < length filepath"
  shows "extract_frame_number filepath W =
           (let ds = takeWhile is_digit (frame_number_field filepath (unat W))
            in if ds = [] \<or> SIZE_MAX < digits_value ds
               then Inl (FrameNumberParseError filepath)
               else Inr (of_nat (digits_value ds)))"
proof -
  let ?field = "frame_number_field filepath (unat W)"
  have "takeWhile is_digit (?field @ path_extension filepath) = takeWhile is_digit ?field"
    by (rule takeWhile_digits_field) (rule path_extension_no_digit_front)
  then have "from_chars (?field @ path_extension filepath) 0 =
               (let ds = takeWhile is_digit ?field
                in if ds = [] then ((0, invalid_argument), 0)
                   else if SIZE_MAX < digits_value ds then ((length ds, result_out_of_range), 0)
                   else ((length ds, errc_ok), of_nat (digits_value ds)))"
    by (simp add: from_chars_def)
  then show ?thesis
    unfolding extract_frame_number_passed[OF assms] by (simp add: Let_def)
qed

theorem extract_frame_number_leading_digits_witness:
  "length ''frameAB123.png'' < 2 ^ 64 \<and>
   length (path_extension ''frameAB123.png'') + unat (5 :: size_t) < length ''frameAB123.png'' \<and>
   frame_number_field ''frameAB123.png'' 5 = ''AB123'' \<and>
   extract_frame_number ''frameAB123.png'' 5 = Inl (FrameNumberParseError ''frameAB123.png'')"
proof -
  have e: "path_extension ''frameAB123.png'' = ''.png''"
    by (simp add: path_extension_def path_filename_def)
  have h1: "length ''frameAB123.png'' < 2 ^ 64" by simp
  have h2: "length (path_extension ''frameAB123.png'') + unat (5 :: size_t) < length ''frameAB123.png''"
    by (simp add: e)
  have f: "frame_number_field ''frameAB123.png'' 5 = ''AB123''"
    by (simp add: frame_number_field_def e)
  show ?thesis
    using h1 h2 f extract_frame_number_leading_digits[OF h1 h2]
    by (simp add: is_digit_def)
qed

text \<open>
  C2 as stated fails: \<open>f12abc.png\<close> passes the length check, its field \<open>12abc\<close> has
  characters that are not digits, and the result is 12, not an error.
\<close>

theorem extract_frame_number_accepts_12abc:
  "\<not> ((of_nat (length ''f12abc.png'') :: size_t)
        \<le> of_nat (length (path_extension ''f12abc.png'')) + 5) \<and>
   frame_number_field ''f12abc.png'' 5 = ''12abc'' \<and>
   \<not> list_all is_digit ''12abc'' \<and>
   extract_frame_number ''f12abc.png'' 5 = Inr 12"
  by (simp add: eval_defs)

text \<open>
  C3. For every path that passes the length check and whose \<open>W\<close>-character field is
  the decimal numeral of \<open>n\<close> padded with zeros to the width \<open>W\<close>, where \<open>n\<close> is a
  \<open>size_t\<close> value, \<open>extract_frame_number\<close> returns \<open>n\<close>: the zeros in front count
  for the width only. In particular \<open>frame00042.png\<close> with width 5 gives 42.
\<close>

theorem extract_frame_number_zero_padded:
  assumes "length filepath < 2 ^ 64"
    and "length (path_extension filepath) + unat W < length filepath"
    and "frame_number_field filepath (unat W) = zero_padded (unat W) n"
    and "n \<le> SIZE_MAX"
  shows "extract_frame_number filepath W = Inr (of_nat n) \<and> unat (of_nat n :: size_t) = n"
proof -
  let ?zp = "zero_padded (unat W) n"
  have "takeWhile is_digit (?zp @ path_extension filepath) = takeWhile is_digit ?zp"
    by (rule takeWhile_digits_field) (rule path_extension_no_digit_front)
  then have ds: "takeWhile is_digit (?zp @ path_extension filepath) = ?zp"
    by (simp add: takeWhile_zero_padded)
  have "from_chars (?zp @ path_extension filepath) 0 = ((length ?zp, errc_ok), of_nat n)"
    using assms(4) by (simp add: from_chars_def ds zero_padded_not_Nil digits_value_zero_padded)
  then have "extract_frame_number filepath W = Inr (of_nat n)"
    unfolding extract_frame_number_passed[OF assms(1,2)] assms(3) by simp
  moreover have "unat (of_nat n :: size_t) = n"
    using assms(4) by (simp add: unat_of_nat SIZE_MAX_def)
  ultimately show ?thesis by simp
qed

theorem extract_frame_number_zero_padded_witness:
  "length ''frame00042.png'' < 2 ^ 64 \<and>
   length (path_extension ''frame00042.png'') + unat (5 :: size_t) < length ''frame00042.png'' \<and>
   frame_number_field ''frame00042.png'' (unat (5 :: size_t)) = zero_padded (unat (5 :: size_t)) 42 \<and>
   42 \<le> SIZE_MAX \<and>
   extract_frame_number ''frame00042.png'' 5 = Inr 42"
proof -
  have e: "path_extension ''frame00042.png'' = ''.png''"
    by (simp add: path_extension_def path_filename_def)
  have h1: "length ''frame00042.png'' < 2 ^ 64" by simp
  have h2: "length (path_extension ''frame00042.png'') + unat (5 :: size_t) < length ''frame00042.png''"
    by (simp add: e)
  have h3: "frame_number_field ''frame00042.png'' (unat (5 :: size_t)) = zero_padded (unat (5 :: size_t)) 42"
    by (simp add: frame_number_field_def e zero_padded_def decimal.simps digit_char_def numeral_3_eq_3)
  have h4: "42 \<le> SIZE_MAX" by (simp add: SIZE_MAX_def)
  show ?thesis
    using h1 h2 h3 h4 extract_frame_number_zero_padded[OF h1 h2 h3 h4]
    by simp
qed

subsection \<open>The sharpness score\<close>

lemma elements_eq_Nil: "elements m = [] \<longleftrightarrow> rows m = 0 \<or> cols m = 0"
  by (auto simp: elements_def)

lemma fold_minMax_step_snd:
  "snd (fold minMax_step vs (mn, mx)) = Max (insert mx (sint ` set vs))"
proof (induction vs arbitrary: mn mx)
  case Nil
  show ?case by simp
next
  case (Cons v vs)
  let ?S = "sint ` set vs"
  have fin: "finite ?S" by simp
  have "snd (fold minMax_step (v # vs) (mn, mx))
          = Max (insert (if mx < sint v then sint v else mx) ?S)"
    by (simp add: minMax_step_def Cons.IH)
  also have "\<dots> = Max (insert mx (insert (sint v) ?S))"
  proof (cases "?S = {}")
    case True
    then show ?thesis by (simp add: max_def)
  next
    case False
    with fin show ?thesis by (simp add: max_def)
  qed
  finally show ?case by simp
qed

lemma cv_minMaxLoc_max:
  assumes "elements src \<noteq> []"
  shows "snd (cv_minMaxLoc src) = real_of_int (Max (sint ` set (elements src)))"
proof -
  from assms obtain v vs where e: "elements src = v # vs"
    by (cases "elements src") auto
  have "snd (cv_minMaxLoc src) = real_of_int (snd (fold minMax_step vs (sint v, sint v)))"
    by (simp add: cv_minMaxLoc_def e split: prod.splits)
  then show ?thesis by (simp add: fold_minMax_step_snd e)
qed

lemma read_image_Inr:
  assumes "read_image lib filepath w = (Inr img, w')"
  shows "rows img \<noteq> 0" and "cols img \<noteq> 0"
    and "w' = w\<lparr>imread_log := imread_log w @ [filepath]\<rparr>"
  using assms by (auto simp: read_image_def cv_imread_def split: if_splits)

lemma laplacian_response_size:
  "rows (laplacian_response lib img) = rows img" "cols (laplacian_response lib img) = cols img"
  by (simp_all add: laplacian_response_def cv_Laplacian_def cv_cvtColor_def cv_GaussianBlur_def)

lemma calculate_sharpness_Inr:
  assumes "read_image lib filepath w = (Inr img, w')"
  shows "calculate_sharpness lib filepath w =
           (Inr (snd (cv_minMaxLoc (laplacian_response lib img))), w')"
  using assms by (simp add: calculate_sharpness_def laplacian_response_def split: prod.splits)

lemma calculate_sharpness_cases:
  "(\<exists>img w'. read_image lib filepath w = (Inr img, w') \<and>
       calculate_sharpness lib filepath w =
         (Inr (snd (cv_minMaxLoc (laplacian_response lib img))), w')) \<or>
   (\<exists>w'. read_image lib filepath w = (Inl (ImageDecodeError filepath), w') \<and>
       calculate_sharpness lib filepath w = (Inl (ImageDecodeError filepath), w'))"
proof (cases "read_image lib filepath w")
  case (Pair r w')
  show ?thesis
  proof (cases r)
    case (Inl e)
    with Pair have "e = ImageDecodeError filepath"
      by (auto simp: read_image_def split: prod.splits if_splits)
    with Pair Inl show ?thesis by (simp add: calculate_sharpness_def)
  next
    case (Inr img)
    with Pair show ?thesis using calculate_sharpness_Inr by blast
  qed
qed

lemma read_image_fst:
  "fst (read_image lib filepath w) =
     (let img = (case files w filepath of None \<Rightarrow> empty_mat | Some bytes \<Rightarrow> imdecode lib bytes)
      in if cols img = 0 \<or> rows img = 0 then Inl (ImageDecodeError filepath) else Inr img)"
  by (simp add: read_image_def cv_imread_def Let_def)

lemma calculate_sharpness_fst:
  "fst (calculate_sharpness lib filepath w) =
     (case fst (read_image lib filepath w) of
        Inl e \<Rightarrow> Inl e
      | Inr img \<Rightarrow> Inr (snd (cv_minMaxLoc (laplacian_response lib img))))"
  by (simp add: calculate_sharpness_def laplacian_response_def split: prod.splits sum.splits)

lemma calculate_sharpness_world:
  "snd (calculate_sharpness lib filepath w) = w\<lparr>imread_log := imread_log w @ [filepath]\<rparr>"
  by (simp add: calculate_sharpness_def read_image_def cv_imread_def Let_def split: prod.splits)

text \<open>
  C7. For every image that \<open>read_image\<close> decodes, the response of blur, gray and
  Laplacian has at least one sample, and the score \<open>calculate_sharpness\<close> returns is
  the greatest of the signed samples of that whole response: the maximum of the
  values, not of their magnitudes.
\<close>

theorem calculate_sharpness_is_maximum:
  assumes "read_image lib filepath w = (Inr img, w')"
  shows "elements (laplacian_response lib img) \<noteq> [] \<and>
         calculate_sharpness lib filepath w =
           (Inr (real_of_int (Max (sint ` set (elements (laplacian_response lib img))))), w')"
proof -
  have ne: "elements (laplacian_response lib img) \<noteq> []"
    using read_image_Inr(1,2)[OF assms] by (simp add: elements_eq_Nil laplacian_response_size)
  then show ?thesis
    using calculate_sharpness_Inr[OF assms] cv_minMaxLoc_max[OF ne] by simp
qed

text \<open>
  In the example the response of \<open>f00001.png\<close> is \<open>-35, 1, 22\<close>: the score is 22,
  although the sample of greatest magnitude is \<open>-35\<close>.
\<close>

theorem calculate_sharpness_is_maximum_witness:
  "read_image example_library ''frames/f00001.png'' example_world =
     (Inr (imdecode example_library ''Aez''),
      example_world\<lparr>imread_log := [''frames/f00001.png'']\<rparr>) \<and>
   elements (laplacian_response example_library (imdecode example_library ''Aez''))
     = [- 35, 1, 22] \<and>
   calculate_sharpness example_library ''frames/f00001.png'' example_world =
     (Inr 22, example_world\<lparr>imread_log := [''frames/f00001.png'']\<rparr>)"
proof -
  have r: "read_image example_library ''frames/f00001.png'' example_world =
     (Inr (imdecode example_library ''Aez''),
      example_world\<lparr>imread_log := [''frames/f00001.png'']\<rparr>)"
    by (simp add: read_image_def cv_imread_def example_world_def) (simp add: example_library_def)
  have e: "elements (laplacian_response example_library (imdecode example_library ''Aez''))
             = [- 35, 1, 22]"
    by (simp add: elements_def laplacian_response_def cv_Laplacian_def cv_cvtColor_def
        cv_GaussianBlur_def example_library_def)
  show ?thesis
    using calculate_sharpness_is_maximum[OF r] r e by simp
qed

lemma example_sharpness_Aez:
  assumes "files w p = Some ''Aez''"
  shows "calculate_sharpness example_library p w =
           (Inr 22, w\<lparr>imread_log := imread_log w @ [p]\<rparr>)"
proof -
  have r: "read_image example_library p w =
             (Inr (imdecode example_library ''Aez''), w\<lparr>imread_log := imread_log w @ [p]\<rparr>)"
    using assms by (simp add: read_image_def cv_imread_def) (simp add: example_library_def)
  have e: "elements (laplacian_response example_library (imdecode example_library ''Aez''))
             = [- 35, 1, 22]"
    by (simp add: elements_def laplacian_response_def cv_Laplacian_def cv_cvtColor_def
        cv_GaussianBlur_def example_library_def)
  then have "elements (laplacian_response example_library (imdecode example_library ''Aez'')) \<noteq> []"
    by simp
  from cv_minMaxLoc_max[OF this] show ?thesis
    by (simp add: calculate_sharpness_Inr[OF r] e)
qed

lemma example_sharpness_mmm:
  assumes "files w p = Some ''mmm''"
  shows "calculate_sharpness example_library p w =
           (Inr 9, w\<lparr>imread_log := imread_log w @ [p]\<rparr>)"
proof -
  have r: "read_image example_library p w =
             (Inr (imdecode example_library ''mmm''), w\<lparr>imread_log := imread_log w @ [p]\<rparr>)"
    using assms by (simp add: read_image_def cv_imread_def) (simp add: example_library_def)
  have e: "elements (laplacian_response example_library (imdecode example_library ''mmm''))
             = [9, 9, 9]"
    by (simp add: elements_def laplacian_response_def cv_Laplacian_def cv_cvtColor_def
        cv_GaussianBlur_def example_library_def)
  then have "elements (laplacian_response example_library (imdecode example_library ''mmm'')) \<noteq> []"
    by simp
  from cv_minMaxLoc_max[OF this] show ?thesis
    by (simp add: calculate_sharpness_Inr[OF r] e)
qed

text \<open>
  C10. Every score that \<open>calculate_sharpness\<close> returns is the value of an integer
  between \<open>-32768\<close> and \<open>32767\<close>, the range of the signed 16-bit samples of the
  Laplacian response.
\<close>

theorem calculate_sharpness_range:
  assumes "calculate_sharpness lib filepath w = (Inr s, w')"
  shows "\<exists>k::int. s = real_of_int k \<and> - 32768 \<le> k \<and> k \<le> 32767"
proof -
  from calculate_sharpness_cases[of lib filepath w] assms
  obtain img where img: "read_image lib filepath w = (Inr img, w')"
    and s: "s = snd (cv_minMaxLoc (laplacian_response lib img))"
    by auto
  let ?es = "elements (laplacian_response lib img)"
  have ne: "?es \<noteq> []"
    using read_image_Inr(1,2)[OF img] by (simp add: elements_eq_Nil laplacian_response_size)
  then have "Max (sint ` set ?es) \<in> sint ` set ?es"
    by (intro Max_in) auto
  then obtain x :: s16 where x: "Max (sint ` set ?es) = sint x" by auto
  have "- (2 ^ 15) \<le> sint x" and "sint x < 2 ^ 15"
    using sint_ge[of x] sint_lt[of x] by simp_all
  then have "- 32768 \<le> sint x \<and> sint x \<le> 32767" by simp
  moreover have "s = real_of_int (sint x)"
    using s cv_minMaxLoc_max[OF ne] x by simp
  ultimately show ?thesis by blast
qed

theorem calculate_sharpness_range_witness:
  "calculate_sharpness example_library ''frames/f00001.png'' example_world =
     (Inr 22, example_world\<lparr>imread_log := [''frames/f00001.png'']\<rparr>) \<and>
   (\<exists>k::int. (22 :: real) = real_of_int k \<and> - 32768 \<le> k \<and> k \<le> 32767)"
proof -
  have f: "files example_world ''frames/f00001.png'' = Some ''Aez''"
    by (simp add: example_world_def)
  have s: "calculate_sharpness example_library ''frames/f00001.png'' example_world =
     (Inr 22, example_world\<lparr>imread_log := [''frames/f00001.png'']\<rparr>)"
    using example_sharpness_Aez[OF f] by (simp add: example_world_def)
  show ?thesis
    using s calculate_sharpness_range[OF s] by simp
qed

text \<open>
  C8. \<open>calculate_sharpness\<close> is a function of the bytes of the file it is given:
  with the same library, two runs in file systems that hold the same bytes at the
  path give the same outcome (the same score, or the same error), whatever else
  differs. Its only effect is the read of that file: the file system it leaves is
  the one it found, with the read recorded.
\<close>

theorem calculate_sharpness_deterministic:
  assumes "files w1 filepath = files w2 filepath"
  shows "fst (calculate_sharpness lib filepath w1) = fst (calculate_sharpness lib filepath w2) \<and>
         snd (calculate_sharpness lib filepath w1)
           = w1\<lparr>imread_log := imread_log w1 @ [filepath]\<rparr>"
proof -
  have "fst (read_image lib filepath w1) = fst (read_image lib filepath w2)"
    using assms by (simp add: read_image_fst)
  then have "fst (calculate_sharpness lib filepath w1) = fst (calculate_sharpness lib filepath w2)"
    by (simp add: calculate_sharpness_fst)
  then show ?thesis by (simp add: calculate_sharpness_world)
qed

theorem calculate_sharpness_deterministic_witness:
  "files example_world ''frames/f00001.png'' =
     files (example_world\<lparr>directories := Map.empty, imread_log := [''frames/f00002.png'']\<rparr>)
       ''frames/f00001.png'' \<and>
   fst (calculate_sharpness example_library ''frames/f00001.png'' example_world) = Inr 22 \<and>
   fst (calculate_sharpness example_library ''frames/f00001.png''
          (example_world\<lparr>directories := Map.empty, imread_log := [''frames/f00002.png'']\<rparr>))
     = Inr 22 \<and>
   snd (calculate_sharpness example_library ''frames/f00001.png'' example_world) =
     example_world\<lparr>imread_log := [''frames/f00001.png'']\<rparr>"
proof -
  let ?w2 = "example_world\<lparr>directories := Map.empty, imread_log := [''frames/f00002.png'']\<rparr>"
  have h: "files example_world ''frames/f00001.png'' = files ?w2 ''frames/f00001.png''"
    by simp
  have f: "files example_world ''frames/f00001.png'' = Some ''Aez''"
    by (simp add: example_world_def)
  have s: "fst (calculate_sharpness example_library ''frames/f00001.png'' example_world) = Inr 22"
    using example_sharpness_Aez[OF f] by simp
  have l: "imread_log example_world = []" by (simp add: example_world_def)
  show ?thesis
    using calculate_sharpness_deterministic[OF h, of example_library] s l by simp
qed

subsection \<open>One frame, and the frames of a directory\<close>

lemma extract_frame_number_error:
  assumes "extract_frame_number filepath W = Inl e"
  shows "e = InvalidFileNameError filepath \<or> e = FrameNumberParseError filepath"
  using assms
  by (auto simp: extract_frame_number_def Let_def split: if_splits prod.splits)

lemma analyse_frame_name_error:
  assumes "extract_frame_number filepath default_frame_number_digits = Inl e"
  shows "analyse_frame lib filepath w = (Inl e, w)"
  using assms by (simp add: analyse_frame_def)

lemma analyse_frame_log:
  "\<exists>ps. imread_log (snd (analyse_frame lib filepath w)) = imread_log w @ ps \<and>
        set ps \<subseteq> {filepath}"
proof (cases "extract_frame_number filepath default_frame_number_digits")
  case (Inl e)
  then show ?thesis by (simp add: analyse_frame_def)
next
  case (Inr n)
  then have "imread_log (snd (analyse_frame lib filepath w)) = imread_log w @ [filepath]"
    using calculate_sharpness_world[of lib filepath w]
    by (auto simp: analyse_frame_def split: prod.splits sum.splits)
  then show ?thesis by simp
qed

lemma collect_frames_bad_name:
  assumes "p \<in> set entries"
    and "extract_frame_number p default_frame_number_digits = Inl e"
  shows "\<exists>e' w' ps. collect_frames lib entries acc w = (Inl e', w') \<and>
           imread_log w' = imread_log w @ ps \<and> p \<notin> set ps"
  using assms(1)
proof (induction entries arbitrary: acc w)
  case Nil
  then show ?case by simp
next
  case (Cons entry entries)
  obtain r w1 where af: "analyse_frame lib entry w = (r, w1)"
    by (cases "analyse_frame lib entry w")
  show ?case
  proof (cases "entry = p")
    case True
    then show ?thesis using analyse_frame_name_error[OF assms(2), of lib w] by simp
  next
    case False
    with Cons.prems have mem: "p \<in> set entries" by simp
    from analyse_frame_log[of lib entry w] af obtain ps where
      ps: "imread_log w1 = imread_log w @ ps" "set ps \<subseteq> {entry}" by auto
    with False have pn: "p \<notin> set ps" by auto
    show ?thesis
    proof (cases r)
      case (Inl e1)
      with af ps pn show ?thesis by simp
    next
      case (Inr frame)
      from Cons.IH[OF mem, of "acc @ [frame]" w1] obtain e' w' qs where
        "collect_frames lib entries (acc @ [frame]) w1 = (Inl e', w')"
        "imread_log w' = imread_log w1 @ qs" "p \<notin> set qs" by blast
      with af Inr ps pn show ?thesis by simp
    qed
  qed
qed

lemma analyse_frames_directory:
  assumes "directories w directory = Some entries"
  shows "analyse_frames lib directory w =
           (case collect_frames lib entries [] w of
              (Inl e, w') \<Rightarrow> (Inl e, w')
            | (Inr result, w') \<Rightarrow> (Inr (std_sort lib frame_less result), w'))"
  using assms by (simp add: analyse_frames_def is_directory_def directory_iterator_def)

lemma example_extract:
  "extract_frame_number ''frames/f00001.png'' default_frame_number_digits = Inr 1"
  "extract_frame_number ''frames/f00002.png'' default_frame_number_digits = Inr 2"
  "extract_frame_number ''d/x.png'' default_frame_number_digits
     = Inl (InvalidFileNameError ''d/x.png'')"
  by (simp_all add: eval_defs default_frame_number_digits_def)

text \<open>
  C9. Let the name of a file fail frame-number extraction with the error \<open>e\<close>. Then
  \<open>analyse_frame\<close> fails with \<open>e\<close>, which is the name or the parse error, and leaves
  the file system as it was: the image is not decoded, and the outcome is no
  \<open>ImageDecodeError\<close>. A run over a directory that holds the file fails, and the file
  is not among the images the run decodes.
\<close>

theorem analyse_frame_name_error_first:
  assumes "extract_frame_number filepath default_frame_number_digits = Inl e"
  shows "analyse_frame lib filepath w = (Inl e, w) \<and>
         (e = InvalidFileNameError filepath \<or> e = FrameNumberParseError filepath) \<and>
         (\<forall>q w'. analyse_frame lib filepath w \<noteq> (Inl (ImageDecodeError q), w')) \<and>
         (directories w directory = Some entries \<and> filepath \<in> set entries \<longrightarrow>
            (\<exists>e' w' ps. analyse_frames lib directory w = (Inl e', w') \<and>
               imread_log w' = imread_log w @ ps \<and> filepath \<notin> set ps))"
proof -
  have a: "analyse_frame lib filepath w = (Inl e, w)"
    using assms by (rule analyse_frame_name_error)
  have k: "e = InvalidFileNameError filepath \<or> e = FrameNumberParseError filepath"
    using assms by (rule extract_frame_number_error)
  then have n: "\<forall>q w'. analyse_frame lib filepath w \<noteq> (Inl (ImageDecodeError q), w')"
    unfolding a by auto
  have "\<exists>e' w' ps. analyse_frames lib directory w = (Inl e', w') \<and>
           imread_log w' = imread_log w @ ps \<and> filepath \<notin> set ps"
    if d: "directories w directory = Some entries" and m: "filepath \<in> set entries"
  proof -
    from collect_frames_bad_name[OF m assms, of lib "[]" w] obtain e' w' ps where
      "collect_frames lib entries [] w = (Inl e', w')"
      "imread_log w' = imread_log w @ ps" "filepath \<notin> set ps"
      by blast
    then show ?thesis by (auto simp: analyse_frames_directory[OF d])
  qed
  with a k n show ?thesis by blast
qed

text \<open>
  In the example the run decodes \<open>frames/f00001.png\<close> and then fails at \<open>d/x.png\<close>
  with the name error, without decoding it.
\<close>

theorem analyse_frame_name_error_first_witness:
  "extract_frame_number ''d/x.png'' default_frame_number_digits
     = Inl (InvalidFileNameError ''d/x.png'') \<and>
   analyse_frame example_library ''d/x.png'' example_world_bad_name =
     (Inl (InvalidFileNameError ''d/x.png''), example_world_bad_name) \<and>
   directories example_world_bad_name ''d'' = Some [''frames/f00001.png'', ''d/x.png''] \<and>
   ''d/x.png'' \<in> set [''frames/f00001.png'', ''d/x.png''] \<and>
   analyse_frames example_library ''d'' example_world_bad_name =
     (Inl (InvalidFileNameError ''d/x.png''),
      example_world_bad_name\<lparr>imread_log := [''frames/f00001.png'']\<rparr>) \<and>
   (\<exists>e' w' ps. analyse_frames example_library ''d'' example_world_bad_name = (Inl e', w') \<and>
      imread_log w' = imread_log example_world_bad_name @ ps \<and> ''d/x.png'' \<notin> set ps)"
proof -
  have h: "extract_frame_number ''d/x.png'' default_frame_number_digits
             = Inl (InvalidFileNameError ''d/x.png'')"
    by (rule example_extract)
  have d: "directories example_world_bad_name ''d'' = Some [''frames/f00001.png'', ''d/x.png'']"
    by (simp add: example_world_bad_name_def)
  have m: "''d/x.png'' \<in> set [''frames/f00001.png'', ''d/x.png'']" by simp
  have "files example_world_bad_name ''frames/f00001.png'' = Some ''Aez''"
    by (simp add: example_world_bad_name_def example_world_def)
  from example_sharpness_Aez[OF this]
  have f1: "analyse_frame example_library ''frames/f00001.png'' example_world_bad_name =
              (Inr \<lparr>number = 1, sharpness = 22\<rparr>,
               example_world_bad_name\<lparr>imread_log := [''frames/f00001.png'']\<rparr>)"
    by (simp add: analyse_frame_def example_extract)
      (simp add: example_world_bad_name_def example_world_def)
  have run: "analyse_frames example_library ''d'' example_world_bad_name =
     (Inl (InvalidFileNameError ''d/x.png''),
      example_world_bad_name\<lparr>imread_log := [''frames/f00001.png'']\<rparr>)"
    by (simp add: analyse_frames_directory[OF d] f1 analyse_frame_name_error[OF h])
  show ?thesis
    using analyse_frame_name_error_first[OF h, of example_library example_world_bad_name
        "''d''" "[''frames/f00001.png'', ''d/x.png'']"] h d m run
    by simp
qed

text \<open>
  C6 (as amended). For every path that is not an existing directory,
  \<open>analyse_frames\<close> fails and leaves the file system as it was: with
  \<open>InvalidDirectoryError\<close> when \<open>is_directory\<close> answers (the path does not exist, or
  is something else), and with the \<open>filesystem_error\<close> of \<open>is_directory\<close> when the
  status of the path cannot be had. In both cases the whole program, started with
  that path and any result path, ends with the failure status in the file system
  it started in: no file is created or changed.
\<close>

theorem analyse_frames_invalid_directory:
  assumes "directories w directory = None"
  shows "analyse_frames lib directory w =
           (Inl (if status_fails w directory then FilesystemError directory
                 else InvalidDirectoryError directory), w) \<and>
         main lib [prog, directory, result_path] w = (EXIT_FAILURE, w) \<and>
         files (snd (main lib [prog, directory, result_path] w)) = files w"
proof -
  have a: "analyse_frames lib directory w =
             (Inl (if status_fails w directory then FilesystemError directory
                   else InvalidDirectoryError directory), w)"
    using assms by (simp add: analyse_frames_def is_directory_def)
  have "parse_args [prog, directory, result_path]
          = Inr \<lparr>frames_directory = directory, result_file = result_path\<rparr>"
    by (simp add: parse_args_def)
  then have "main lib [prog, directory, result_path] w = (EXIT_FAILURE, w)"
    by (simp add: main_def a)
  with a show ?thesis by simp
qed

theorem analyse_frames_invalid_directory_witness:
  "directories example_world ''missing'' = None \<and>
   analyse_frames example_library ''missing'' example_world =
     (Inl (InvalidDirectoryError ''missing''), example_world) \<and>
   main example_library [''autofocus'', ''missing'', ''out.txt''] example_world =
     (EXIT_FAILURE, example_world) \<and>
   files (snd (main example_library [''autofocus'', ''missing'', ''out.txt''] example_world))
     ''out.txt'' = None"
proof -
  have h: "directories example_world ''missing'' = None"
    by (simp add: example_world_def)
  have f: "files example_world ''out.txt'' = None"
    by (simp add: example_world_def)
  have st: "\<not> status_fails example_world ''missing''"
    by (simp add: example_world_def)
  show ?thesis
    using analyse_frames_invalid_directory[OF h, of example_library "''autofocus''" "''out.txt''"]
      h f st
    by simp
qed

text \<open>
  C6 as stated fails where the status of the path cannot be had: \<open>locked/frames\<close>
  is no existing directory, and the error is the \<open>filesystem_error\<close> that
  \<open>is_directory\<close> raises, not \<open>InvalidDirectoryError\<close>.
\<close>

theorem analyse_frames_status_error:
  "directories example_world_status_error ''locked/frames'' = None \<and>
   analyse_frames example_library ''locked/frames'' example_world_status_error =
     (Inl (FilesystemError ''locked/frames''), example_world_status_error) \<and>
   FilesystemError ''locked/frames'' \<noteq> InvalidDirectoryError ''locked/frames''"
  by (simp add: analyse_frames_def is_directory_def example_world_status_error_def
      example_world_def)

subsection \<open>The result file\<close>

lemma fold_append_lines:
  "fold (\<lambda>frame ofs. ofs @ f frame) frames acc = acc @ concat (map f frames)"
  by (induction frames arbitrary: acc) simp_all

lemma write_results_content:
  assumes "ofstream_opens w filepath"
  shows "write_results lib filepath frames w =
           (Inr (), w\<lparr>files := (files w)(filepath \<mapsto> concat (map (format_line lib) frames))\<rparr>)"
  using assms by (simp add: write_results_def fold_append_lines)

lemma split_lines_line:
  assumes "CHR 0x0A \<notin> set l"
  shows "split_lines cur (l @ CHR 0x0A # rest) = (cur @ l) # split_lines [] rest"
  using assms by (induction l arbitrary: cur) auto

lemma decimal_no_newline: "CHR 0x0A \<notin> set (decimal n)"
  using decimal_digits[of "CHR 0x0A" n] by (auto simp: is_digit_def)

lemma decimal_no_tab: "CHR 0x09 \<notin> set (decimal n)"
  using decimal_digits[of "CHR 0x09" n] by (auto simp: is_digit_def)

lemma format_line_body: "format_line lib frame = line_body lib frame @ [CHR 0x0A]"
  by (simp add: format_line_def line_body_def)

lemma split_lines_records:
  assumes "format_double_one_line lib"
  shows "split_lines [] (concat (map (format_line lib) frames)) = map (line_body lib) frames"
proof (induction frames)
  case Nil
  show ?case by simp
next
  case (Cons frame frames)
  have nl: "CHR 0x0A \<notin> set (line_body lib frame)"
    using assms decimal_no_newline by (simp add: line_body_def format_double_one_line_def)
  have "split_lines [] (concat (map (format_line lib) (frame # frames)))
          = split_lines [] (line_body lib frame @ CHR 0x0A # concat (map (format_line lib) frames))"
    by (simp add: format_line_body)
  also have "\<dots> = line_body lib frame # split_lines [] (concat (map (format_line lib) frames))"
    using split_lines_line[OF nl, of "[]"] by simp
  finally show ?case using Cons.IH by simp
qed

lemma first_field_line_body:
  "takeWhile (\<lambda>c. c \<noteq> CHR 0x09) (line_body lib frame) = decimal (unat (number frame))"
proof -
  have "\<forall>c\<in>set (decimal (unat (number frame))). c \<noteq> CHR 0x09"
    using decimal_no_tab by auto
  then show ?thesis
    by (simp add: line_body_def takeWhile_append2)
qed

lemma first_fields_records:
  assumes "format_double_one_line lib"
  shows "first_fields (concat (map (format_line lib) frames))
           = map (\<lambda>frame. decimal (unat (number frame))) frames"
  by (simp add: first_fields_def split_lines_records[OF assms] first_field_line_body)

lemma std_sort_Nil:
  assumes "std_sort_contract lib"
  shows "std_sort lib frame_less [] = []"
proof -
  from assms have "mset (std_sort lib frame_less []) = mset []"
    unfolding std_sort_contract_def by blast
  then show ?thesis by simp
qed

lemma parse_args_three:
  "parse_args [prog, directory, result_path]
     = Inr \<lparr>frames_directory = directory, result_file = result_path\<rparr>"
  by (simp add: parse_args_def)

lemma example_format_double_one_line: "format_double_one_line example_library"
  using decimal_no_newline by (simp add: format_double_one_line_def example_library_def)

lemma example_format_line:
  "format_line example_library \<lparr>number = 1, sharpness = 22\<rparr>
     = [CHR ''1'', CHR 0x09, CHR ''2'', CHR ''2'', CHR 0x0A]"
  "format_line example_library \<lparr>number = 2, sharpness = 9\<rparr>
     = [CHR ''2'', CHR 0x09, CHR ''9'', CHR 0x0A]"
  by (simp_all add: format_line_def example_library_def decimal.simps digit_char_def)

lemma example_line_body:
  "line_body example_library \<lparr>number = 1, sharpness = 22\<rparr> = [CHR ''1'', CHR 0x09, CHR ''2'', CHR ''2'']"
  "line_body example_library \<lparr>number = 2, sharpness = 9\<rparr> = [CHR ''2'', CHR 0x09, CHR ''9'']"
  by (simp_all add: line_body_def example_library_def decimal.simps digit_char_def)

subsection \<open>The example sort\<close>

lemma mset_insert_by: "mset (insert_by cmp x ys) = add_mset x (mset ys)"
  by (induction ys) simp_all

lemma mset_insertion_sort: "mset (insertion_sort cmp xs) = mset xs"
  by (induction xs) (simp_all add: insertion_sort_def mset_insert_by)

lemma set_insert_by: "set (insert_by cmp x ys) = insert x (set ys)"
  by (induction ys) auto

lemma sorted_insert_by:
  assumes "sorted_wrt (\<lambda>a b. \<not> frame_less b a) ys"
  shows "sorted_wrt (\<lambda>a b. \<not> frame_less b a) (insert_by frame_less x ys)"
  using assms by (induction ys) (auto simp: set_insert_by frame_less_def)

lemma sorted_insertion_sort:
  "sorted_wrt (\<lambda>a b. \<not> frame_less b a) (insertion_sort frame_less xs)"
  by (induction xs) (simp_all add: insertion_sort_def sorted_insert_by)

lemma example_std_sort_contract: "std_sort_contract example_library"
  by (simp add: std_sort_contract_def example_library_def mset_insertion_sort sorted_insertion_sort)

text \<open>
  C5. When the stream opens, \<open>write_results\<close> leaves in the file the records of the
  frames it is given, one after the other in the order given, and changes nothing
  else. Each record is the decimal frame number, a tab, the text of the sharpness
  and a line feed, so that (the text of a \<open>double\<close> being on one line) the lines of
  the file are the records of the frames, one line per frame. For no frames the
  file is empty; this is what the program writes for an existing directory without
  entries.
\<close>

theorem write_results_one_line_per_frame:
  assumes "ofstream_opens w filepath" and "format_double_one_line lib"
  shows "write_results lib filepath frames w =
           (Inr (), w\<lparr>files := (files w)(filepath \<mapsto> concat (map (format_line lib) frames))\<rparr>) \<and>
         (\<forall>frame. format_line lib frame =
            decimal (unat (number frame)) @ [CHR 0x09] @ format_double lib (sharpness frame)
              @ [CHR 0x0A]) \<and>
         split_lines [] (concat (map (format_line lib) frames)) = map (line_body lib) frames \<and>
         length (split_lines [] (concat (map (format_line lib) frames))) = length frames \<and>
         write_results lib filepath [] w = (Inr (), w\<lparr>files := (files w)(filepath \<mapsto> [])\<rparr>) \<and>
         (std_sort_contract lib \<and> directories w directory = Some [] \<longrightarrow>
            analyse_frames lib directory w = (Inr [], w) \<and>
            main lib [prog, directory, filepath] w
              = (EXIT_SUCCESS, w\<lparr>files := (files w)(filepath \<mapsto> [])\<rparr>))"
proof -
  have wr: "write_results lib filepath frames w =
           (Inr (), w\<lparr>files := (files w)(filepath \<mapsto> concat (map (format_line lib) frames))\<rparr>)"
    for frames
    by (rule write_results_content[OF assms(1)])
  have ls: "split_lines [] (concat (map (format_line lib) frames)) = map (line_body lib) frames"
    by (rule split_lines_records[OF assms(2)])
  have empty: "analyse_frames lib directory w = (Inr [], w) \<and>
          main lib [prog, directory, filepath] w
            = (EXIT_SUCCESS, w\<lparr>files := (files w)(filepath \<mapsto> [])\<rparr>)"
    if c: "std_sort_contract lib" and d: "directories w directory = Some []"
  proof -
    have a: "analyse_frames lib directory w = (Inr [], w)"
      by (simp add: analyse_frames_directory[OF d] std_sort_Nil[OF c])
    then show ?thesis
      using wr[of "[]"] by (simp add: main_def parse_args_three)
  qed
  show ?thesis
    using wr[of frames] wr[of "[]"] ls empty by (simp add: format_line_def)
qed

theorem write_results_one_line_per_frame_witness:
  "ofstream_opens example_world ''out.txt'' \<and>
   format_double_one_line example_library \<and>
   write_results example_library ''out.txt''
       [\<lparr>number = 1, sharpness = 22\<rparr>, \<lparr>number = 2, sharpness = 9\<rparr>] example_world =
     (Inr (), example_world\<lparr>files := (files example_world)(''out.txt'' \<mapsto>
        [CHR ''1'', CHR 0x09, CHR ''2'', CHR ''2'', CHR 0x0A,
         CHR ''2'', CHR 0x09, CHR ''9'', CHR 0x0A])\<rparr>) \<and>
   split_lines []
       [CHR ''1'', CHR 0x09, CHR ''2'', CHR ''2'', CHR 0x0A, CHR ''2'', CHR 0x09, CHR ''9'', CHR 0x0A]
     = [[CHR ''1'', CHR 0x09, CHR ''2'', CHR ''2''], [CHR ''2'', CHR 0x09, CHR ''9'']] \<and>
   std_sort_contract example_library \<and>
   directories example_world ''empty'' = Some [] \<and>
   main example_library [''autofocus'', ''empty'', ''out.txt''] example_world =
     (EXIT_SUCCESS, example_world\<lparr>files := (files example_world)(''out.txt'' \<mapsto> [])\<rparr>)"
proof -
  have h1: "ofstream_opens example_world ''out.txt''"
    by (simp add: example_world_def)
  have d: "directories example_world ''empty'' = Some []"
    by (simp add: example_world_def)
  show ?thesis
    using write_results_one_line_per_frame[OF h1 example_format_double_one_line,
        of "[\<lparr>number = 1, sharpness = 22\<rparr>, \<lparr>number = 2, sharpness = 9\<rparr>]" "''empty''"
           "''autofocus''"]
      h1 example_format_double_one_line example_std_sort_contract d
    by (simp add: example_format_line example_line_body)
qed

subsection \<open>The order of the results\<close>

lemma std_sort_numbers:
  assumes "std_sort_contract lib"
  shows "map number (std_sort lib frame_less xs) = sort (map number xs)"
proof -
  let ?ys = "std_sort lib frame_less xs"
  from assms have m: "mset ?ys = mset xs"
    and s: "sorted_wrt (\<lambda>a b. \<not> frame_less b a) ?ys"
    by (simp_all add: std_sort_contract_def)
  have "(\<lambda>a b. \<not> frame_less b a) = (\<lambda>a b. number a \<le> number b)"
    by (auto simp: frame_less_def fun_eq_iff)
  with s have "sorted (map number ?ys)" by (simp add: sorted_map)
  moreover from m have "mset (map number ?ys) = mset (map number xs)"
    by (metis mset_map)
  ultimately show ?thesis by (metis properties_for_sort)
qed

lemma collect_frames_numbers:
  assumes "collect_frames lib entries acc w = (Inr result, w')"
  shows "\<exists>fs. result = acc @ fs \<and>
          map (\<lambda>e. extract_frame_number e default_frame_number_digits) entries
            = map (\<lambda>f. Inr (number f)) fs"
  using assms
proof (induction entries arbitrary: acc w)
  case Nil
  then show ?case by simp
next
  case (Cons entry entries)
  from Cons.prems obtain frame w1 where
    af: "analyse_frame lib entry w = (Inr frame, w1)"
    and rest: "collect_frames lib entries (acc @ [frame]) w1 = (Inr result, w')"
    by (auto split: prod.splits sum.splits)
  from af have n: "extract_frame_number entry default_frame_number_digits = Inr (number frame)"
    by (auto simp: analyse_frame_def split: sum.splits prod.splits)
  from Cons.IH[OF rest] obtain fs where
    "result = (acc @ [frame]) @ fs"
    "map (\<lambda>e. extract_frame_number e default_frame_number_digits) entries
       = map (\<lambda>f. Inr (number f)) fs"
    by blast
  with n have "result = acc @ (frame # fs) \<and>
     map (\<lambda>e. extract_frame_number e default_frame_number_digits) (entry # entries)
       = map (\<lambda>f. Inr (number f)) (frame # fs)"
    by simp
  then show ?case by blast
qed

lemma example_analyse_frames:
  "analyse_frames example_library ''frames'' example_world =
     (Inr [\<lparr>number = 1, sharpness = 22\<rparr>, \<lparr>number = 2, sharpness = 9\<rparr>],
      example_world\<lparr>imread_log := [''frames/f00002.png'', ''frames/f00001.png'']\<rparr>)"
proof -
  let ?w1 = "example_world\<lparr>imread_log := [''frames/f00002.png'']\<rparr>"
  let ?w2 = "example_world\<lparr>imread_log := [''frames/f00002.png'', ''frames/f00001.png'']\<rparr>"
  have "files example_world ''frames/f00002.png'' = Some ''mmm''"
    by (simp add: example_world_def)
  from example_sharpness_mmm[OF this]
  have f2: "analyse_frame example_library ''frames/f00002.png'' example_world =
              (Inr \<lparr>number = 2, sharpness = 9\<rparr>, ?w1)"
    by (simp add: analyse_frame_def example_extract) (simp add: example_world_def)
  have "files ?w1 ''frames/f00001.png'' = Some ''Aez''"
    by (simp add: example_world_def)
  from example_sharpness_Aez[OF this]
  have f1: "analyse_frame example_library ''frames/f00001.png'' ?w1 =
              (Inr \<lparr>number = 1, sharpness = 22\<rparr>, ?w2)"
    by (simp add: analyse_frame_def example_extract)
  have c: "collect_frames example_library [''frames/f00002.png'', ''frames/f00001.png''] []
             example_world =
             (Inr [\<lparr>number = 2, sharpness = 9\<rparr>, \<lparr>number = 1, sharpness = 22\<rparr>], ?w2)"
    by (simp add: f2 f1)
  have s: "std_sort example_library frame_less
             [\<lparr>number = 2, sharpness = 9\<rparr>, \<lparr>number = 1, sharpness = 22\<rparr>]
             = [\<lparr>number = 1, sharpness = 22\<rparr>, \<lparr>number = 2, sharpness = 9\<rparr>]"
    by (simp add: example_library_def insertion_sort_def frame_less_def)
  have d: "directories example_world ''frames''
             = Some [''frames/f00002.png'', ''frames/f00001.png'']"
    by (simp add: example_world_def)
  show ?thesis by (simp add: analyse_frames_directory[OF d] c s del: collect_frames.simps)
qed

text \<open>
  C4. Let \<open>std::sort\<close> keep its contract and the text of a \<open>double\<close> be on one line.
  For every directory on which \<open>analyse_frames\<close> succeeds, every entry has a frame
  number \<open>ns\<close>, the frames returned are in non-decreasing order of their numbers,
  these numbers are \<open>ns\<close> sorted, and when the frames are then written, the first
  fields of the lines of the file, from the first line to the last, are the
  decimal numerals of \<open>ns\<close> sorted.
\<close>

theorem analyse_frames_sorted:
  assumes "std_sort_contract lib" and "format_double_one_line lib"
    and "directories w directory = Some entries"
    and "analyse_frames lib directory w = (Inr frames, w1)"
    and "write_results lib result_path frames w1 = (Inr (), w2)"
  shows "sorted (map number frames) \<and>
         (\<exists>ns. map (\<lambda>e. extract_frame_number e default_frame_number_digits) entries
                 = map Inr ns \<and>
               map number frames = sort ns \<and>
               (\<exists>content. files w2 result_path = Some content \<and>
                  first_fields content = map (\<lambda>n. decimal (unat n)) (sort ns)))"
proof -
  from assms(4) obtain result where
    c: "collect_frames lib entries [] w = (Inr result, w1)"
    and fr: "frames = std_sort lib frame_less result"
    unfolding analyse_frames_directory[OF assms(3)]
    by (auto split: prod.splits sum.splits)
  from collect_frames_numbers[OF c] have
    ex: "map (\<lambda>e. extract_frame_number e default_frame_number_digits) entries
           = map Inr (map number result)"
    by auto
  have nums: "map number frames = sort (map number result)"
    unfolding fr by (rule std_sort_numbers[OF assms(1)])
  then have srt: "sorted (map number frames)" by simp
  from assms(5) have opens: "ofstream_opens w1 result_path"
    by (auto simp: write_results_def split: if_splits)
  from assms(5) have "files w2 result_path = Some (concat (map (format_line lib) frames))"
    unfolding write_results_content[OF opens] by auto
  moreover have "first_fields (concat (map (format_line lib) frames))
                   = map (\<lambda>n. decimal (unat n)) (map number frames)"
    unfolding first_fields_records[OF assms(2)] by (simp add: comp_def)
  ultimately have "\<exists>content. files w2 result_path = Some content \<and>
      first_fields content = map (\<lambda>n. decimal (unat n)) (sort (map number result))"
    using nums by simp
  with srt ex nums show ?thesis by blast
qed

text \<open>
  In the example the directory lists frame 2 before frame 1; the frames come back
  as 1, 2 and the file reads \<open>1<tab>22\<close>, \<open>2<tab>9\<close>.
\<close>

theorem analyse_frames_sorted_witness:
  "std_sort_contract example_library \<and> format_double_one_line example_library \<and>
   directories example_world ''frames'' = Some [''frames/f00002.png'', ''frames/f00001.png''] \<and>
   analyse_frames example_library ''frames'' example_world =
     (Inr [\<lparr>number = 1, sharpness = 22\<rparr>, \<lparr>number = 2, sharpness = 9\<rparr>],
      example_world\<lparr>imread_log := [''frames/f00002.png'', ''frames/f00001.png'']\<rparr>) \<and>
   write_results example_library ''out.txt''
       [\<lparr>number = 1, sharpness = 22\<rparr>, \<lparr>number = 2, sharpness = 9\<rparr>]
       (example_world\<lparr>imread_log := [''frames/f00002.png'', ''frames/f00001.png'']\<rparr>) =
     (Inr (), example_world\<lparr>imread_log := [''frames/f00002.png'', ''frames/f00001.png''],
        files := (files example_world)(''out.txt'' \<mapsto>
          [CHR ''1'', CHR 0x09, CHR ''2'', CHR ''2'', CHR 0x0A,
           CHR ''2'', CHR 0x09, CHR ''9'', CHR 0x0A])\<rparr>) \<and>
   map (\<lambda>e. extract_frame_number e default_frame_number_digits)
       [''frames/f00002.png'', ''frames/f00001.png''] = map Inr [2, 1] \<and>
   sorted (map number [\<lparr>number = 1, sharpness = 22\<rparr>, \<lparr>number = 2, sharpness = 9\<rparr>]) \<and>
   first_fields
       [CHR ''1'', CHR 0x09, CHR ''2'', CHR ''2'', CHR 0x0A, CHR ''2'', CHR 0x09, CHR ''9'', CHR 0x0A]
     = [''1'', ''2'']"
proof -
  let ?w1 = "example_world\<lparr>imread_log := [''frames/f00002.png'', ''frames/f00001.png'']\<rparr>"
  let ?frames = "[\<lparr>number = 1, sharpness = 22\<rparr>, \<lparr>number = 2, sharpness = 9\<rparr>]"
  let ?content = "[CHR ''1'', CHR 0x09, CHR ''2'', CHR ''2'', CHR 0x0A,
                   CHR ''2'', CHR 0x09, CHR ''9'', CHR 0x0A]"
  have d: "directories example_world ''frames''
             = Some [''frames/f00002.png'', ''frames/f00001.png'']"
    by (simp add: example_world_def)
  have o: "ofstream_opens ?w1 ''out.txt''"
    by (simp add: example_world_def)
  have wr: "write_results example_library ''out.txt'' ?frames ?w1 =
              (Inr (), ?w1\<lparr>files := (files ?w1)(''out.txt'' \<mapsto> ?content)\<rparr>)"
    using write_results_content[OF o, of example_library ?frames]
    by (simp add: example_format_line)
  have ff: "first_fields ?content = [''1'', ''2'']"
    by (simp add: first_fields_def)
  show ?thesis
    using analyse_frames_sorted[OF example_std_sort_contract example_format_double_one_line d
        example_analyse_frames wr]
      example_std_sort_contract example_format_double_one_line d example_analyse_frames wr ff
    by (simp add: example_extract)
qed

end
